theory Spec2Isabelle
  imports Complex_Main
begin

section \<open>Core: pitch classes, chord qualities, chord symbols\<close>

text \<open>
  C++ \<open>%\<close> on \<open>int\<close> truncates towards zero (the sign of the result is the sign of the
  dividend) and \<open>/\<close> truncates as well; Isabelle's \<open>mod\<close> and \<open>div\<close> floor. Both are
  written out. All integers of the modelled code are pitch classes, small offsets, list
  sizes and depths, far from the bounds of a 32-bit \<open>int\<close>, so they are \<open>int\<close> here.
\<close>

definition c_rem :: "int \<Rightarrow> int \<Rightarrow> int" where
  "c_rem a b = sgn a * (\<bar>a\<bar> mod \<bar>b\<bar>)"

definition c_div :: "int \<Rightarrow> int \<Rightarrow> int" where
  "c_div a b = sgn a * sgn b * (\<bar>a\<bar> div \<bar>b\<bar>)"

text \<open>
  \<open>class PitchClass\<close>: the private field \<open>value_\<close> (here \<open>pc_value\<close>); the
  explicit constructor \<open>PitchClass(int value)\<close> stores \<open>value % 12\<close> and adds 12
  when that is negative.
\<close>

datatype PitchClass = PC (pc_value: int)

definition PitchClass_of :: "int \<Rightarrow> PitchClass" where
  "PitchClass_of v = (let r = c_rem v 12 in PC (if r < 0 then r + 12 else r))"

definition intervalTo :: "PitchClass \<Rightarrow> PitchClass \<Rightarrow> int" where
  "intervalTo this other = c_rem (pc_value other - pc_value this + 12) 12"

definition pc_transpose :: "PitchClass \<Rightarrow> int \<Rightarrow> PitchClass" where
  "pc_transpose this semitones = PitchClass_of (pc_value this + semitones)"

text \<open>The values a \<open>PitchClass\<close> object can hold: whatever its constructor stores.\<close>

definition pc_ok :: "PitchClass \<Rightarrow> bool" where
  "pc_ok p \<longleftrightarrow> 0 \<le> pc_value p \<and> pc_value p < 12"

datatype ChordQuality =
  MAJ7 | MIN7 | DOM7 | HDIM7 | DIM7 | AUG | MIN_MAJ7 | MAJ6 | MIN6 | SUS4 | SUS2

fun qualityIntervals :: "ChordQuality \<Rightarrow> int list" where
  "qualityIntervals MAJ7 = [0, 4, 7, 11]"
| "qualityIntervals MIN7 = [0, 3, 7, 10]"
| "qualityIntervals DOM7 = [0, 4, 7, 10]"
| "qualityIntervals HDIM7 = [0, 3, 6, 10]"
| "qualityIntervals DIM7 = [0, 3, 6, 9]"
| "qualityIntervals AUG = [0, 4, 8]"
| "qualityIntervals MIN_MAJ7 = [0, 3, 7, 11]"
| "qualityIntervals MAJ6 = [0, 4, 7, 9]"
| "qualityIntervals MIN6 = [0, 3, 7, 9]"
| "qualityIntervals SUS4 = [0, 5, 7, 10]"
| "qualityIntervals SUS2 = [0, 2, 7, 10]"

text \<open>
  \<open>class ChordSymbol\<close>: root, quality, extensions (9, 11, 13), alterations
  (degree to -1 or +1) and the optional slash-chord bass. The two-argument constructor
  leaves the last three empty.
\<close>

record ChordSymbol =
  cs_root :: PitchClass
  cs_quality :: ChordQuality
  cs_extensions :: "int list"
  cs_alterations :: "(int \<times> int) list"
  cs_bass :: "PitchClass option"

definition ChordSymbol_of :: "PitchClass \<Rightarrow> ChordQuality \<Rightarrow> ChordSymbol" where
  "ChordSymbol_of r q =
     \<lparr>cs_root = r, cs_quality = q, cs_extensions = [], cs_alterations = [], cs_bass = None\<rparr>"

definition third :: "ChordSymbol \<Rightarrow> PitchClass" where
  "third c =
     (let intervals = qualityIntervals (cs_quality c);
          thirdInterval = (if length intervals > 1 then intervals ! 1 else 4)
      in pc_transpose (cs_root c) thirdInterval)"

definition seventh :: "ChordSymbol \<Rightarrow> PitchClass" where
  "seventh c =
     (let intervals = qualityIntervals (cs_quality c)
      in if length intervals < 4 then pc_transpose (cs_root c) 10
         else pc_transpose (cs_root c) (intervals ! 3))"

section \<open>Guide-tone voice leading\<close>

definition minInterval :: "PitchClass \<Rightarrow> PitchClass \<Rightarrow> int" where
  "minInterval pc1 pc2 =
     (let forward = c_rem (pc_value pc2 - pc_value pc1 + 12) 12;
          backward = c_rem (pc_value pc1 - pc_value pc2 + 12) 12
      in min forward backward)"

text \<open>
  \<open>voiceLeadingCost\<close> returns a \<open>float\<close> that is the conversion of an \<open>int\<close> sum of two
  interval distances (at most 12), and \<open>progressionVoiceLeadingCost\<close> adds such values up
  from \<open>0.0f\<close>. These small integers are exact in \<open>float\<close> (up to \<open>2^24\<close>), so the costs are
  modelled by the integers themselves.
\<close>

definition voiceLeadingCost :: "ChordSymbol \<Rightarrow> ChordSymbol \<Rightarrow> int" where
  "voiceLeadingCost chord1 chord2 =
     (let third1 = third chord1; seventh1 = seventh chord1;
          third2 = third chord2; seventh2 = seventh chord2;
          cost1 = minInterval third1 third2 + minInterval seventh1 seventh2;
          cost2 = minInterval third1 seventh2 + minInterval seventh1 third2
      in min cost1 cost2)"

definition progressionVoiceLeadingCost :: "ChordSymbol list \<Rightarrow> int" where
  "progressionVoiceLeadingCost chords =
     (if length chords < 2 then 0
      else fold (\<lambda>i total. total + voiceLeadingCost (chords ! i) (chords ! (i + 1)))
             [0 ..< length chords - 1] 0)"

section \<open>Tritone substitution of a single chord\<close>

definition isDominant :: "ChordSymbol \<Rightarrow> bool" where
  "isDominant chord \<longleftrightarrow> cs_quality chord = DOM7"

definition substitute :: "ChordSymbol \<Rightarrow> ChordSymbol" where
  "substitute chord =
     (if \<not> isDominant chord then chord
      else let newRoot = pc_transpose (cs_root chord) 6
           in ChordSymbol_of newRoot (cs_quality chord))"

section \<open>Voice-leading optimizer\<close>

text \<open>
  The inner \<open>for\<close> of \<open>VoiceLeadingOptimizer::optimize\<close>: the positions still to try, in
  order. The first dominant chord whose tritone substitute gives a strictly smaller total
  cost is accepted (\<open>break\<close>); \<open>None\<close> is a scan without improvement.
\<close>

fun optimize_scan ::
  "ChordSymbol list \<Rightarrow> int \<Rightarrow> nat list \<Rightarrow> (ChordSymbol list \<times> int) option" where
  "optimize_scan current currentCost [] = None"
| "optimize_scan current currentCost (i # rest) =
     (let chord = current ! i in
      if isDominant chord then
        (let test = current[i := substitute chord];
             newCost = progressionVoiceLeadingCost test
         in if newCost < currentCost then Some (test, newCost)
            else optimize_scan current currentCost rest)
      else optimize_scan current currentCost rest)"

text \<open>The outer \<open>for (int iter = 0; iter < maxIterations; ++iter)\<close>.\<close>

function optimize_loop ::
  "int \<Rightarrow> int \<Rightarrow> ChordSymbol list \<Rightarrow> int \<Rightarrow> ChordSymbol list" where
  "optimize_loop iter maxIterations current currentCost =
     (if iter < maxIterations then
        (case optimize_scan current currentCost [0 ..< length current] of
           Some (test, newCost) \<Rightarrow> optimize_loop (iter + 1) maxIterations test newCost
         | None \<Rightarrow> current)
      else current)"
  by pat_completeness auto
termination
  by (relation "measure (\<lambda>(iter, maxIterations, current, currentCost).
                  nat (maxIterations - iter))") auto

definition optimize :: "ChordSymbol list \<Rightarrow> int \<Rightarrow> ChordSymbol list" where
  "optimize chords maxIterations =
     optimize_loop 0 maxIterations chords (progressionVoiceLeadingCost chords)"

section \<open>Random sources\<close>

text \<open>
  Every random decision of the pipeline is a call of a standard distribution on a
  \<open>std::mt19937\<close>. The generator is modelled by the stream of its future results, each
  normalised to the unit interval \<open>[0, 1)\<close>: \<open>uniform_real_distribution(a, b)\<close> returns
  \<open>a + u * (b - a)\<close> and \<open>uniform_int_distribution(0, n - 1)\<close> the index
  \<open>\<lfloor>u * n\<rfloor>\<close> for the next element \<open>u\<close>. \<open>float\<close> probabilities are modelled as
  exact reals.
\<close>

type_synonym rng = "nat \<Rightarrow> real"

definition draw :: "rng \<Rightarrow> real \<times> rng" where
  "draw g = (g 0, (\<lambda>n. g (Suc n)))"

definition rng_ok :: "rng \<Rightarrow> bool" where
  "rng_ok g \<longleftrightarrow> (\<forall>n. 0 \<le> g n \<and> g n < 1)"

definition constant_draws :: "real \<Rightarrow> rng" where
  "constant_draws u = (\<lambda>n. u)"

definition uniform_real :: "real \<Rightarrow> real \<Rightarrow> rng \<Rightarrow> real \<times> rng" where
  "uniform_real a b g = (let (u, g') = draw g in (a + u * (b - a), g'))"

definition uniform_index :: "nat \<Rightarrow> rng \<Rightarrow> nat \<times> rng" where
  "uniform_index n g = (let (u, g') = draw g in (nat \<lfloor>u * real n\<rfloor>, g'))"

text \<open>
  \<open>shouldSubstitute\<close> (the same private function in the three substitution classes, each
  on a function-static generator of its own, seeded from \<open>std::random_device\<close>).
\<close>

definition shouldSubstitute :: "real \<Rightarrow> rng \<Rightarrow> bool \<times> rng" where
  "shouldSubstitute probability g =
     (let (x, g') = uniform_real 0 1 g in (x < probability, g'))"

section \<open>Substitution rules over a progression\<close>

subsection \<open>Tritone substitution\<close>

text \<open>
  One iteration of the loop of \<open>TritoneSubstitution::apply\<close> at chord \<open>chord\<close>, followed
  in the progression by \<open>rest\<close>. \<open>&&\<close> draws only for a dominant chord.
\<close>

definition tritone_step ::
  "ChordSymbol \<Rightarrow> ChordSymbol list \<Rightarrow> real \<Rightarrow> rng \<Rightarrow> ChordSymbol \<times> rng" where
  "tritone_step chord rest probability g =
     (if isDominant chord then
        (let (s, g') = shouldSubstitute probability g in
         if s then
           (let resolvesDown =
                  (case rest of
                     [] \<Rightarrow> False
                   | nextChord # _ \<Rightarrow>
                       (let nextRoot = pc_value (cs_root nextChord);
                            curRoot = pc_value (cs_root chord);
                            interval = c_rem (nextRoot - curRoot + 12) 12
                        in interval = 5 \<or> interval = 7))
            in (if resolvesDown then substitute chord else chord, g'))
         else (chord, g'))
      else (chord, g))"

fun TritoneSubstitution_apply ::
  "ChordSymbol list \<Rightarrow> real \<Rightarrow> rng \<Rightarrow> ChordSymbol list \<times> rng" where
  "TritoneSubstitution_apply [] probability g = ([], g)"
| "TritoneSubstitution_apply (chord # rest) probability g =
     (let (out, g1) = tritone_step chord rest probability g;
          (result, g2) = TritoneSubstitution_apply rest probability g1
      in (out # result, g2))"

subsection \<open>Backdoor dominant\<close>

definition createBackdoor :: "PitchClass \<Rightarrow> ChordSymbol" where
  "createBackdoor tonicRoot =
     (let backdoorRoot = pc_transpose tonicRoot 10 in ChordSymbol_of backdoorRoot DOM7)"

definition isTonic :: "ChordSymbol \<Rightarrow> bool" where
  "isTonic chord \<longleftrightarrow> cs_quality chord = MAJ7 \<or> cs_quality chord = MAJ6"

definition canApplyBackdoor :: "ChordSymbol \<Rightarrow> ChordSymbol \<Rightarrow> bool" where
  "canApplyBackdoor chord nextChord =
     (if \<not> isDominant chord then False
      else (let expectedVRoot = c_rem (pc_value (cs_root nextChord) + 7) 12
            in pc_value (cs_root chord) = expectedVRoot \<and> isTonic nextChord))"

text \<open>
  One iteration of the loop of \<open>BackdoorSubstitution::apply\<close>; \<open>&&\<close> draws only when
  \<open>canApplyBackdoor\<close> holds.
\<close>

definition backdoor_step ::
  "ChordSymbol \<Rightarrow> ChordSymbol list \<Rightarrow> real \<Rightarrow> rng \<Rightarrow> ChordSymbol \<times> rng" where
  "backdoor_step chord rest probability g =
     (case rest of
        [] \<Rightarrow> (chord, g)
      | nextChord # _ \<Rightarrow>
          (if canApplyBackdoor chord nextChord then
             (let (s, g') = shouldSubstitute probability g in
              if s then (createBackdoor (cs_root nextChord), g') else (chord, g'))
           else (chord, g)))"

fun BackdoorSubstitution_apply ::
  "ChordSymbol list \<Rightarrow> real \<Rightarrow> rng \<Rightarrow> ChordSymbol list \<times> rng" where
  "BackdoorSubstitution_apply [] probability g = ([], g)"
| "BackdoorSubstitution_apply (chord # rest) probability g =
     (let (out, g1) = backdoor_step chord rest probability g;
          (result, g2) = BackdoorSubstitution_apply rest probability g1
      in (out # result, g2))"

subsection \<open>Coltrane changes\<close>

definition substituteIiVI ::
  "ChordSymbol \<Rightarrow> ChordSymbol \<Rightarrow> ChordSymbol \<Rightarrow> ChordSymbol list" where
  "substituteIiVI ii v i =
     (let tonicRoot = cs_root i;
          center2 = pc_transpose tonicRoot 4;
          center3 = pc_transpose tonicRoot 8
      in [ii,
          ChordSymbol_of (pc_transpose center2 7) DOM7,
          ChordSymbol_of center2 MAJ7,
          ChordSymbol_of (pc_transpose center3 7) DOM7,
          ChordSymbol_of center3 MAJ7,
          v,
          i])"

definition isIiVI :: "ChordSymbol \<Rightarrow> ChordSymbol \<Rightarrow> ChordSymbol \<Rightarrow> bool" where
  "isIiVI c1 c2 c3 =
     (if cs_quality c1 \<noteq> MIN7 then False
      else if cs_quality c2 \<noteq> DOM7 then False
      else if cs_quality c3 \<noteq> MAJ7 \<and> cs_quality c3 \<noteq> MAJ6 then False
      else (let tonicRoot = pc_value (cs_root c3);
                expectedIi = c_rem (tonicRoot + 2) 12;
                expectedV = c_rem (tonicRoot + 7) 12
            in pc_value (cs_root c1) = expectedIi \<and> pc_value (cs_root c2) = expectedV))"

text \<open>
  \<open>ColtraneSubstitution::apply\<close>: with at least two chords after position \<open>i\<close> the
  generator is drawn (before the pattern test); on a match the seven chords of
  \<open>substituteIiVI\<close> are appended and the loop skips the two chords it consumed.
\<close>

fun ColtraneSubstitution_apply ::
  "ChordSymbol list \<Rightarrow> real \<Rightarrow> rng \<Rightarrow> ChordSymbol list \<times> rng" where
  "ColtraneSubstitution_apply [] probability g = ([], g)"
| "ColtraneSubstitution_apply (chord # next1 # next2 # rest) probability g =
     (let (s, g1) = shouldSubstitute probability g in
      if s \<and> isIiVI chord next1 next2 then
        (let (result, g2) = ColtraneSubstitution_apply rest probability g1
         in (substituteIiVI chord next1 next2 @ result, g2))
      else
        (let (result, g2) = ColtraneSubstitution_apply (next1 # next2 # rest) probability g1
         in (chord # result, g2)))"
| "ColtraneSubstitution_apply (chord # rest) probability g =
     (let (result, g2) = ColtraneSubstitution_apply rest probability g
      in (chord # result, g2))"

section \<open>Style parameters\<close>

record StyleVector =
  tritoneSubProb :: real
  backdoorProb :: real
  coltraneProb :: real
  iiVPreference :: real
  secondaryDomProb :: real
  modalInterchange :: real
  minorIvProb :: real
  chromaticApproach :: real
  diminishedApproach :: real
  dominantChainDepth :: int
  prolongationDepth :: int
  rhythmDensity :: real
  turnaroundProb :: real
  extensionLevel :: real
  alterationProb :: real

definition BEBOP :: StyleVector where
  "BEBOP =
     \<lparr>tritoneSubProb = 0.3, backdoorProb = 0.15, coltraneProb = 0.05, iiVPreference = 0.9,
      secondaryDomProb = 0.4, modalInterchange = 0.2, minorIvProb = 0.15,
      chromaticApproach = 0.4, diminishedApproach = 0.2, dominantChainDepth = 4,
      prolongationDepth = 2, rhythmDensity = 0.8, turnaroundProb = 0.6,
      extensionLevel = 0.5, alterationProb = 0.3\<rparr>"

section \<open>Grammar symbols and rules\<close>

datatype NonTerminal = S | T | D | SD | PROL | PREP | PHRASE

datatype RuleType = PROLONGATION | PREPARATION | SUBSTITUTION | TERMINAL | STRUCTURAL

text \<open>
  \<open>Symbol\<close> is \<open>std::variant<NTSymbol, TerminalSymbol>\<close>: a non-terminal with its
  optional key, or a terminal with degree, quality and the \<open>keyRelative\<close> flag.
\<close>

datatype Symbol =
  NTSymbol NonTerminal "int option"
| TerminalSymbol string string bool

record GrammarRule =
  lhs :: NonTerminal
  rhs :: "Symbol list"
  prob :: real
  ruleType :: RuleType
  name :: string

text \<open>The constructor and \<open>setProb\<close> both clamp the probability into \<open>[0, 1]\<close>.\<close>

definition GrammarRule_of ::
  "NonTerminal \<Rightarrow> Symbol list \<Rightarrow> real \<Rightarrow> RuleType \<Rightarrow> string \<Rightarrow> GrammarRule" where
  "GrammarRule_of l r p t n =
     \<lparr>lhs = l, rhs = r,
      prob = (let p1 = (if p < 0 then 0 else p) in if p1 > 1 then 1 else p1),
      ruleType = t, name = n\<rparr>"

definition setProb :: "GrammarRule \<Rightarrow> real \<Rightarrow> GrammarRule" where
  "setProb rule p = rule\<lparr>prob := max 0 (min 1 p)\<rparr>"

definition degreeToSemitones :: "string \<Rightarrow> int" where
  "degreeToSemitones degree =
     (case map_of
        [(''I'', 0), (''bII'', 1), (''II'', 2), (''bIII'', 3), (''III'', 4),
         (''IV'', 5), (''#IV'', 6), (''V'', 7), (''bVI'', 8), (''VI'', 9),
         (''bVII'', 10), (''VII'', 11),
         (''i'', 0), (''ii'', 2), (''iii'', 4), (''iv'', 5), (''v'', 7), (''vi'', 9),
         (''vii'', 11),
         (''V/V'', 2), (''V/ii'', 9), (''V/IV'', 0)] degree of
        Some v \<Rightarrow> v
      | None \<Rightarrow> 0)"

definition stringToChordQuality :: "string \<Rightarrow> ChordQuality" where
  "stringToChordQuality qual =
     (if qual = ''maj7'' then MAJ7
      else if qual = ''min7'' then MIN7
      else if qual = ''7'' then DOM7
      else if qual = ''m7b5'' then HDIM7
      else if qual = ''dim7'' then DIM7
      else if qual = ''maj6'' then MAJ6
      else if qual = ''min6'' then MIN6
      else MAJ7)"

text \<open>\<open>std::string::find\<close>: is the pattern a substring, and where is a character first.\<close>

fun str_contains :: "string \<Rightarrow> string \<Rightarrow> bool" where
  "str_contains pat [] = (pat = [])"
| "str_contains pat (c # cs) = (take (length pat) (c # cs) = pat \<or> str_contains pat cs)"

fun find_char :: "char \<Rightarrow> string \<Rightarrow> nat option" where
  "find_char x [] = None"
| "find_char x (c # cs) =
     (if c = x then Some 0 else map_option Suc (find_char x cs))"

section \<open>The probabilistic grammar\<close>

text \<open>
  \<open>class PCFG\<close>: the start symbol and the rule table, an \<open>unordered_map\<close> from
  non-terminal to the list of its rules (a missing key reads as no rules in \<open>getRules\<close>).
  The lists of the source hold \<open>shared_ptr<GrammarRule>\<close> and the setters write through
  the pointers. This record holds the rules by value, which is what the table reads as
  when every list holds every rule object once: so it is for every table built with the
  five-argument \<open>addRule\<close> alone (each rule a fresh \<open>make_shared\<close> object), the base
  grammar and the style grammars among them. The table with its rule objects, where one
  object may stand in a list twice, is \<open>PCFG_store\<close> below; \<open>normalize\<close> is stated
  there, and its agreement with \<open>normalize_rules\<close> on lists of distinct objects is
  proved. The generator \<open>rng_\<close> of the class is kept with the other random sources
  (\<open>grammar_rng\<close> below).
\<close>

record PCFG =
  startSymbol :: NonTerminal
  rules :: "NonTerminal \<Rightarrow> GrammarRule list"

definition PCFG_of :: "NonTerminal \<Rightarrow> PCFG" where
  "PCFG_of start = \<lparr>startSymbol = start, rules = (\<lambda>nt. [])\<rparr>"

definition addRule ::
  "PCFG \<Rightarrow> NonTerminal \<Rightarrow> Symbol list \<Rightarrow> real \<Rightarrow> RuleType \<Rightarrow> string \<Rightarrow> PCFG" where
  "addRule g l r p t n =
     g\<lparr>rules := (rules g)(l := rules g l @ [GrammarRule_of l r p t n])\<rparr>"

definition getRules :: "PCFG \<Rightarrow> NonTerminal \<Rightarrow> GrammarRule list" where
  "getRules g nt = rules g nt"

definition total_prob :: "GrammarRule list \<Rightarrow> real" where
  "total_prob ruleList = fold (\<lambda>rule total. total + prob rule) ruleList 0"

text \<open>The body of the loop of \<open>PCFG::normalize\<close> for one rule list.\<close>

definition normalize_rules :: "GrammarRule list \<Rightarrow> GrammarRule list" where
  "normalize_rules ruleList =
     (let total = total_prob ruleList in
      if total > 0 then map (\<lambda>rule. setProb rule (prob rule / total)) ruleList
      else ruleList)"

definition PCFG_normalize :: "PCFG \<Rightarrow> PCFG" where
  "PCFG_normalize g = g\<lparr>rules := (\<lambda>nt. normalize_rules (rules g nt))\<rparr>"

text \<open>The cumulative-sum loop of \<open>sampleRule\<close>; \<open>None\<close> when it runs off the list.\<close>

fun sample_scan :: "GrammarRule list \<Rightarrow> real \<Rightarrow> real \<Rightarrow> GrammarRule option" where
  "sample_scan [] r cumsum = None"
| "sample_scan (rule # rest) r cumsum =
     (let cumsum' = cumsum + prob rule in
      if r \<le> cumsum' then Some rule else sample_scan rest r cumsum')"

definition sampleRule :: "PCFG \<Rightarrow> NonTerminal \<Rightarrow> rng \<Rightarrow> GrammarRule option \<times> rng" where
  "sampleRule g nt gen =
     (let ruleList = getRules g nt in
      if ruleList = [] then (None, gen)
      else
        (let total = total_prob ruleList in
         if total = 0 then
           (let (i, gen') = uniform_index (length ruleList) gen
            in (Some (ruleList ! i), gen'))
         else
           (let (r, gen') = uniform_real 0 total gen in
            case sample_scan ruleList r 0 of
              Some rule \<Rightarrow> (Some rule, gen')
            | None \<Rightarrow> (Some (last ruleList), gen'))))"

definition createBaseGrammar :: PCFG where
  "createBaseGrammar =
     (let g = PCFG_of S;
          g = addRule g S [NTSymbol T None] 0.3 STRUCTURAL ''single_phrase'';
          g = addRule g S [NTSymbol T None, NTSymbol D None, NTSymbol T None] 0.5
                STRUCTURAL ''tdt_form'';
          g = addRule g S [NTSymbol T None, NTSymbol T None] 0.2 STRUCTURAL ''tt_form'';
          g = addRule g T [TerminalSymbol ''I'' ''maj7'' True] 0.3 TERMINAL ''t_terminal'';
          g = addRule g T [NTSymbol D None, NTSymbol T None] 0.35
                PREPARATION ''authentic_cadence'';
          g = addRule g T [NTSymbol SD None, NTSymbol T None] 0.15
                PREPARATION ''plagal_cadence'';
          g = addRule g T [NTSymbol T None, NTSymbol PROL None] 0.1
                PROLONGATION ''t_right_prolong'';
          g = addRule g T [NTSymbol PROL None, NTSymbol T None] 0.1
                PROLONGATION ''t_left_prolong'';
          g = addRule g D [TerminalSymbol ''V'' ''7'' True] 0.4 TERMINAL ''d_terminal'';
          g = addRule g D [NTSymbol PREP None, NTSymbol D None] 0.4 PREPARATION ''ii_v'';
          g = addRule g D [NTSymbol D None, NTSymbol PROL None] 0.1
                PROLONGATION ''d_prolong'';
          g = addRule g D [TerminalSymbol ''bII'' ''7'' True] 0.1
                SUBSTITUTION ''tritone_sub'';
          g = addRule g SD [TerminalSymbol ''IV'' ''maj7'' True] 0.5 TERMINAL ''sd_iv'';
          g = addRule g SD [TerminalSymbol ''ii'' ''min7'' True] 0.3 TERMINAL ''sd_ii'';
          g = addRule g SD [TerminalSymbol ''iv'' ''min7'' True] 0.2
                TERMINAL ''sd_borrowed_iv'';
          g = addRule g PREP [TerminalSymbol ''ii'' ''min7'' True] 0.5 TERMINAL ''prep_ii'';
          g = addRule g PREP [TerminalSymbol ''IV'' ''maj7'' True] 0.2 TERMINAL ''prep_iv'';
          g = addRule g PREP [TerminalSymbol ''V/V'' ''7'' True] 0.15
                TERMINAL ''prep_secondary_dom'';
          g = addRule g PREP [NTSymbol PREP None, NTSymbol PREP None] 0.15
                PROLONGATION ''prep_chain'';
          g = addRule g PROL [TerminalSymbol ''iii'' ''min7'' True] 0.3 TERMINAL ''prol_iii'';
          g = addRule g PROL [TerminalSymbol ''vi'' ''min7'' True] 0.4 TERMINAL ''prol_vi'';
          g = addRule g PROL [TerminalSymbol ''I'' ''maj7'' True] 0.3 TERMINAL ''prol_i''
      in PCFG_normalize g)"

section \<open>The rule table with shared rule objects\<close>

text \<open>
  The rule table as the source has it: \<open>rules_\<close> maps a non-terminal to a vector of
  \<open>shared_ptr<GrammarRule>\<close>. The rule objects live in a store, addresses stand for
  the pointers, and the same address may occur more than once in a list: the public
  one-argument \<open>addRule\<close> appends whatever pointer it is given under the left-hand side
  of the object. Cells that no pointer refers to hold the placeholder \<open>unallocated\<close>.
\<close>

type_synonym addr = nat

record PCFG_store =
  s_start :: NonTerminal
  s_table :: "NonTerminal \<Rightarrow> addr list"
  s_objects :: "addr \<Rightarrow> GrammarRule"
  s_next :: addr




text \<open>\<open>PCFG::addRule(std::shared_ptr<GrammarRule> rule)\<close>.\<close>

definition addRule_ptr :: "PCFG_store \<Rightarrow> addr \<Rightarrow> PCFG_store" where
  "addRule_ptr g a =
     (let l = lhs (s_objects g a) in g\<lparr>s_table := (s_table g)(l := s_table g l @ [a])\<rparr>)"







section \<open>Derivation\<close>

text \<open>
  The random sources of the pipeline. Only \<open>grammar_rng\<close> (the member \<open>rng_\<close> of the
  generator's grammar) is reached by \<open>setSeed\<close>; the other five are function-static
  generators seeded from \<open>std::random_device\<close> at their first use.
\<close>

record random_state =
  grammar_rng :: rng
  derive_rng :: rng
  adjust_rng :: rng
  backdoor_rng :: rng
  tritone_rng :: rng
  coltrane_rng :: rng

record GeneratorConfig =
  maxDepth :: int
  minChords :: int
  maxChords :: int
  key :: int
  seed :: "nat option"

definition default_config :: GeneratorConfig where
  "default_config = \<lparr>maxDepth = 6, minChords = 4, maxChords = 32, key = 0, seed = None\<rparr>"

datatype DerivationNode =
  DerivationNode (symbol: Symbol) (node_key: int) (children: "DerivationNode list")
    (ruleUsed: "GrammarRule option")

definition getDefaultTerminal :: "NonTerminal \<Rightarrow> Symbol" where
  "getDefaultTerminal nt =
     (case nt of
        T \<Rightarrow> TerminalSymbol ''I'' ''maj7'' True
      | D \<Rightarrow> TerminalSymbol ''V'' ''7'' True
      | SD \<Rightarrow> TerminalSymbol ''IV'' ''maj7'' True
      | PREP \<Rightarrow> TerminalSymbol ''ii'' ''min7'' True
      | PROL \<Rightarrow> TerminalSymbol ''vi'' ''min7'' True
      | S \<Rightarrow> TerminalSymbol ''I'' ''maj7'' True
      | PHRASE \<Rightarrow> TerminalSymbol ''I'' ''maj7'' True)"

text \<open>
  The choice of the rule in \<open>derive\<close>. At the depth limit a rule of type \<open>TERMINAL\<close> is
  drawn uniformly on the function-static generator of \<open>derive\<close>; below it the grammar
  samples on its own generator. \<open>None\<close> covers both places where the source falls back
  to the default terminal: no terminal rule at the depth limit, and no rule from
  \<open>sampleRule\<close>.
\<close>

definition choose_rule ::
  "PCFG \<Rightarrow> GeneratorConfig \<Rightarrow> NonTerminal \<Rightarrow> int \<Rightarrow> random_state
     \<Rightarrow> GrammarRule option \<times> random_state" where
  "choose_rule g cfg nt depth st =
     (if depth \<ge> maxDepth cfg then
        (let terminalRules = filter (\<lambda>r. ruleType r = TERMINAL) (getRules g nt) in
         if terminalRules \<noteq> [] then
           (let (i, gen') = uniform_index (length terminalRules) (derive_rng st)
            in (Some (terminalRules ! i), st\<lparr>derive_rng := gen'\<rparr>))
         else (None, st))
      else
        (let (rule, gen') = sampleRule g nt (grammar_rng st)
         in (rule, st\<lparr>grammar_rng := gen'\<rparr>)))"

text \<open>The key handed to the child for one right-hand-side symbol, and the child symbol.\<close>

definition child_key :: "Symbol \<Rightarrow> int \<Rightarrow> int" where
  "child_key rhsSym currentKey =
     (case rhsSym of
        NTSymbol nt k \<Rightarrow> (case k of Some v \<Rightarrow> v | None \<Rightarrow> currentKey)
      | TerminalSymbol degree quality rel \<Rightarrow>
          (if str_contains ''V/'' degree then
             (case find_char (CHR ''/'') degree of
                Some slashPos \<Rightarrow>
                  (let target = drop (slashPos + 1) degree
                   in c_rem (currentKey + degreeToSemitones target) 12)
              | None \<Rightarrow> currentKey)
           else currentKey))"

definition child_sym :: "Symbol \<Rightarrow> int \<Rightarrow> Symbol" where
  "child_sym rhsSym childKey =
     (case rhsSym of
        NTSymbol nt k \<Rightarrow> NTSymbol nt (Some childKey)
      | TerminalSymbol degree quality rel \<Rightarrow> rhsSym)"

text \<open>
  \<open>HarmonyGenerator::derive\<close>. The recursion of the source ends only because of the
  depth limit and the shape of the grammar (a rule of type \<open>TERMINAL\<close> whose right-hand
  side holds a non-terminal keeps it going), so the model carries fuel: one unit per
  nested call, and \<open>None\<close> when it runs out.
\<close>

fun derive ::
  "nat \<Rightarrow> PCFG \<Rightarrow> GeneratorConfig \<Rightarrow> Symbol \<Rightarrow> int \<Rightarrow> int \<Rightarrow> random_state
     \<Rightarrow> (DerivationNode \<times> random_state) option"
and derive_rhs ::
  "nat \<Rightarrow> PCFG \<Rightarrow> GeneratorConfig \<Rightarrow> Symbol list \<Rightarrow> int \<Rightarrow> int \<Rightarrow> random_state
     \<Rightarrow> (DerivationNode list \<times> random_state) option" where
  "derive 0 g cfg sy depth k st = None"
| "derive (Suc fuel) g cfg (TerminalSymbol degree quality rel) depth k st =
     Some (DerivationNode (TerminalSymbol degree quality rel) k [] None, st)"
| "derive (Suc fuel) g cfg (NTSymbol nt ntKey) depth k st =
     (let currentKey = (case ntKey of Some v \<Rightarrow> v | None \<Rightarrow> k);
          (rule, st1) = choose_rule g cfg nt depth st
      in case rule of
           None \<Rightarrow>
             Some (DerivationNode (NTSymbol nt ntKey) currentKey
                     [DerivationNode (getDefaultTerminal nt) currentKey [] None] None, st1)
         | Some r \<Rightarrow>
             (case derive_rhs fuel g cfg (rhs r) depth currentKey st1 of
                None \<Rightarrow> None
              | Some (nodes, st2) \<Rightarrow>
                  Some (DerivationNode (NTSymbol nt ntKey) currentKey nodes (Some r), st2)))"
| "derive_rhs fuel g cfg [] depth currentKey st = Some ([], st)"
| "derive_rhs fuel g cfg (rhsSym # rest) depth currentKey st =
     (let childKey = child_key rhsSym currentKey;
          childSym = child_sym rhsSym childKey
      in case derive fuel g cfg childSym (depth + 1) childKey st of
           None \<Rightarrow> None
         | Some (childNode, st1) \<Rightarrow>
             (case derive_rhs fuel g cfg rest depth currentKey st1 of
                None \<Rightarrow> None
              | Some (nodes, st2) \<Rightarrow> Some (childNode # nodes, st2)))"

fun getTerminals :: "DerivationNode \<Rightarrow> (Symbol \<times> int) list" where
  "getTerminals (DerivationNode sy k nodes rule) =
     (case sy of
        TerminalSymbol degree quality rel \<Rightarrow> [(sy, k)]
      | NTSymbol nt ntKey \<Rightarrow> concat (map getTerminals nodes))"

text \<open>
  \<open>terminalToChord\<close> takes a \<open>TerminalSymbol\<close>; the second case below is outside
  its parameter type and is never reached from \<open>getTerminals\<close>.
\<close>

definition terminalToChord :: "Symbol \<Rightarrow> int \<Rightarrow> ChordSymbol" where
  "terminalToChord terminal k =
     (case terminal of
        TerminalSymbol degree0 quality rel \<Rightarrow>
          (let degree = (if find_char (CHR ''/'') degree0 \<noteq> None then ''V'' else degree0);
               interval = degreeToSemitones degree;
               rootPc0 = c_rem (k + interval) 12;
               rootPc = (if rootPc0 < 0 then rootPc0 + 12 else rootPc0)
           in ChordSymbol_of (PitchClass_of rootPc) (stringToChordQuality quality))
      | NTSymbol nt ntKey \<Rightarrow> ChordSymbol_of (PitchClass_of 0) MAJ7)"

definition terminalsToChords :: "(Symbol \<times> int) list \<Rightarrow> ChordSymbol list" where
  "terminalsToChords terminals = map (\<lambda>(term, k). terminalToChord term k) terminals"

record HarmonyGenerator =
  grammar :: PCFG
  config :: GeneratorConfig

definition setKey :: "HarmonyGenerator \<Rightarrow> int \<Rightarrow> HarmonyGenerator" where
  "setKey gen k =
     (let k1 = c_rem k 12 in
      gen\<lparr>config := (config gen)\<lparr>key := (if k1 < 0 then k1 + 12 else k1)\<rparr>\<rparr>)"

definition setMaxDepth :: "HarmonyGenerator \<Rightarrow> int \<Rightarrow> HarmonyGenerator" where
  "setMaxDepth gen depth = gen\<lparr>config := (config gen)\<lparr>maxDepth := max 1 depth\<rparr>\<rparr>"

text \<open>
  \<open>setSeed\<close> reseeds the grammar's generator and no other; \<open>mt\<close> stands for
  \<open>std::mt19937\<close>, the stream a seed determines.
\<close>

definition setSeed ::
  "(nat \<Rightarrow> rng) \<Rightarrow> HarmonyGenerator \<Rightarrow> nat \<Rightarrow> random_state
     \<Rightarrow> HarmonyGenerator \<times> random_state" where
  "setSeed mt gen sd st =
     (gen\<lparr>config := (config gen)\<lparr>seed := Some sd\<rparr>\<rparr>, st\<lparr>grammar_rng := mt sd\<rparr>)"

definition HarmonyGenerator_generate ::
  "nat \<Rightarrow> HarmonyGenerator \<Rightarrow> random_state \<Rightarrow> (ChordSymbol list \<times> random_state) option" where
  "HarmonyGenerator_generate fuel gen st =
     (case derive fuel (grammar gen) (config gen)
             (NTSymbol (startSymbol (grammar gen)) (Some (key (config gen))))
             0 (key (config gen)) st of
        None \<Rightarrow> None
      | Some (tree, st') \<Rightarrow> Some (terminalsToChords (getTerminals tree), st'))"

section \<open>Style engine\<close>

text \<open>
  \<open>styleToPCFG\<close>: the four loops that reweight the rules of \<open>D\<close>, \<open>T\<close>, \<open>PREP\<close> and
  \<open>SD\<close> by name (through the shared rule objects), then \<open>normalize\<close>.
\<close>

definition adjust_D :: "StyleVector \<Rightarrow> GrammarRule \<Rightarrow> GrammarRule" where
  "adjust_D style rule =
     (if name rule = ''ii_v'' then setProb rule (0.4 * iiVPreference style)
      else if name rule = ''d_terminal'' then
        setProb rule (0.4 * (1 - iiVPreference style * 0.3))
      else if name rule = ''tritone_sub'' then setProb rule (0.15 * tritoneSubProb style)
      else rule)"

definition adjust_T :: "StyleVector \<Rightarrow> GrammarRule \<Rightarrow> GrammarRule" where
  "adjust_T style rule =
     (if str_contains ''prolong'' (name rule) then
        setProb rule (0.1 * (1 + real_of_int (prolongationDepth style) * 0.2))
      else if name rule = ''authentic_cadence'' then
        setProb rule (0.35 * iiVPreference style)
      else if name rule = ''plagal_cadence'' then
        setProb rule (0.15 * (1 + modalInterchange style * 0.5))
      else rule)"

definition adjust_PREP :: "StyleVector \<Rightarrow> GrammarRule \<Rightarrow> GrammarRule" where
  "adjust_PREP style rule =
     (if name rule = ''prep_chain'' then
        setProb rule (0.15 * min 1 (real_of_int (dominantChainDepth style) / 4))
      else if name rule = ''prep_secondary_dom'' then
        setProb rule (0.15 * secondaryDomProb style)
      else rule)"

definition adjust_SD :: "StyleVector \<Rightarrow> GrammarRule \<Rightarrow> GrammarRule" where
  "adjust_SD style rule =
     (if name rule = ''sd_borrowed_iv'' then
        setProb rule (0.2 * (1 + modalInterchange style))
      else rule)"

definition update_rules ::
  "PCFG \<Rightarrow> NonTerminal \<Rightarrow> (GrammarRule \<Rightarrow> GrammarRule) \<Rightarrow> PCFG" where
  "update_rules g nt f = g\<lparr>rules := (rules g)(nt := map f (getRules g nt))\<rparr>"

definition styleToPCFG :: "StyleVector \<Rightarrow> PCFG" where
  "styleToPCFG style =
     (let g = createBaseGrammar;
          g = update_rules g D (adjust_D style);
          g = update_rules g T (adjust_T style);
          g = update_rules g PREP (adjust_PREP style);
          g = update_rules g SD (adjust_SD style)
      in PCFG_normalize g)"

text \<open>
  \<open>SubstitutionEngine::apply\<close>: backdoor, then tritone, then Coltrane, each behind its
  style gate and each on the static generator of its class.
\<close>

definition SubstitutionEngine_apply ::
  "ChordSymbol list \<Rightarrow> StyleVector \<Rightarrow> random_state \<Rightarrow> ChordSymbol list \<times> random_state" where
  "SubstitutionEngine_apply progression style st =
     (let (result1, st1) =
            (if modalInterchange style > 0.2 then
               (let (r, gen') = BackdoorSubstitution_apply progression
                                  (modalInterchange style * 0.3) (backdoor_rng st)
                in (r, st\<lparr>backdoor_rng := gen'\<rparr>))
             else (progression, st));
          (result2, st2) =
            (if tritoneSubProb style > 0.1 then
               (let (r, gen') = TritoneSubstitution_apply result1
                                  (tritoneSubProb style) (tritone_rng st1)
                in (r, st1\<lparr>tritone_rng := gen'\<rparr>))
             else (result1, st1))
      in if dominantChainDepth style \<ge> 4 \<and> chromaticApproach style > 0.4 then
           (let (r, gen') = ColtraneSubstitution_apply result2
                              (chromaticApproach style * 0.15) (coltrane_rng st2)
            in (r, st2\<lparr>coltrane_rng := gen'\<rparr>))
         else (result2, st2))"

text \<open>
  The padding loop of \<open>StyleEngine::adjustLength\<close>. The generator is drawn in every
  iteration, before the test that one more chord than the turnaround's first still fits.
\<close>

function adjustLength_loop ::
  "ChordSymbol list \<Rightarrow> int \<Rightarrow> int \<Rightarrow> real \<Rightarrow> rng \<Rightarrow> ChordSymbol list \<times> rng" where
  "adjustLength_loop chords target k tProb g =
     (if int (length chords) < target then
        (let x = fst (uniform_real 0 1 g); g1 = snd (uniform_real 0 1 g) in
         if x < tProb \<and> int (length chords) < target - 1 then
           (let iiRoot = pc_transpose (PitchClass_of k) 2;
                vRoot = pc_transpose (PitchClass_of k) 7;
                chords1 = chords @ [ChordSymbol_of iiRoot MIN7];
                chords2 = (if int (length chords1) < target
                           then chords1 @ [ChordSymbol_of vRoot DOM7] else chords1)
            in adjustLength_loop chords2 target k tProb g1)
         else adjustLength_loop (chords @ [ChordSymbol_of (PitchClass_of k) MAJ7])
                target k tProb g1)
      else (chords, g))"
  by pat_completeness auto
termination
  by (relation "measure (\<lambda>(chords, target, k, tProb, g). nat (target - int (length chords)))")
     (auto simp: Let_def)

declare adjustLength_loop.simps [simp del]

text \<open>
  \<open>vector::resize\<close> with a negative \<open>int\<close> converts it to a huge \<open>size_t\<close> and throws
  \<open>std::length_error\<close>; that and running out of fuel in the derivation are the two
  ways \<open>generate\<close> does not return a progression.
\<close>

datatype gen_error = LengthError | OutOfFuel

definition resize :: "ChordSymbol list \<Rightarrow> int \<Rightarrow> gen_error + ChordSymbol list" where
  "resize chords n =
     (if n < 0 then Inl LengthError
      else Inr (take (nat n) chords
                @ replicate (nat n - length chords) (ChordSymbol_of (PC 0) MAJ7)))"

definition adjustLength ::
  "StyleVector \<Rightarrow> ChordSymbol list \<Rightarrow> int \<Rightarrow> int \<Rightarrow> rng
     \<Rightarrow> gen_error + (ChordSymbol list \<times> rng)" where
  "adjustLength style chords target k g =
     (if int (length chords) \<ge> target then
        (case resize chords target of
           Inl e \<Rightarrow> Inl e
         | Inr chords' \<Rightarrow> Inr (chords', g))
      else
        (let (chords1, g1) = adjustLength_loop chords target k (turnaroundProb style) g in
         if int (length chords1) > target then
           (case resize chords1 target of
              Inl e \<Rightarrow> Inl e
            | Inr chords' \<Rightarrow> Inr (chords', g1))
         else Inr (chords1, g1)))"

text \<open>
  \<open>StyleEngine::generate\<close>. The engine's generator is a \<open>HarmonyGenerator\<close> on
  \<open>styleToPCFG\<close> of the engine's style with the default configuration (\<open>updateGrammar\<close>,
  run by the constructors and by every setter that changes a field the grammar reads).
\<close>

definition StyleEngine_generator :: "StyleVector \<Rightarrow> HarmonyGenerator" where
  "StyleEngine_generator style = \<lparr>grammar = styleToPCFG style, config = default_config\<rparr>"

definition StyleEngine_generate ::
  "nat \<Rightarrow> StyleVector \<Rightarrow> int \<Rightarrow> int \<Rightarrow> random_state
     \<Rightarrow> gen_error + (ChordSymbol list \<times> random_state)" where
  "StyleEngine_generate fuel style len k st =
     (let gen = setKey (StyleEngine_generator style) k;
          gen = setMaxDepth gen (min 6 (c_div len 2 + 2))
      in case HarmonyGenerator_generate fuel gen st of
           None \<Rightarrow> Inl OutOfFuel
         | Some (chords0, st0) \<Rightarrow>
             (case adjustLength style chords0 len k (adjust_rng st0) of
                Inl e \<Rightarrow> Inl e
              | Inr (chords1, g1) \<Rightarrow>
                  (let st1 = st0\<lparr>adjust_rng := g1\<rparr>;
                       (chords2, st2) = SubstitutionEngine_apply chords1 style st1;
                       chords3 = (if extensionLevel style > 0.5
                                  then optimize chords2 50 else chords2)
                   in if int (length chords3) > len then
                        (case resize chords3 len of
                           Inl e \<Rightarrow> Inl e
                         | Inr chords4 \<Rightarrow> Inr (chords4, st2))
                      else Inr (chords3, st2))))"

section \<open>Well-formedness predicates used by the theorems\<close>

text \<open>All six random sources deliver draws in \<open>[0, 1)\<close>.\<close>

definition random_state_ok :: "random_state \<Rightarrow> bool" where
  "random_state_ok st \<longleftrightarrow>
     rng_ok (grammar_rng st) \<and> rng_ok (derive_rng st) \<and> rng_ok (adjust_rng st) \<and>
     rng_ok (backdoor_rng st) \<and> rng_ok (tritone_rng st) \<and> rng_ok (coltrane_rng st)"

text \<open>The state in which every source delivers the same draw \<open>u\<close> for ever.\<close>

definition constant_state :: "real \<Rightarrow> random_state" where
  "constant_state u =
     \<lparr>grammar_rng = constant_draws u, derive_rng = constant_draws u,
      adjust_rng = constant_draws u, backdoor_rng = constant_draws u,
      tritone_rng = constant_draws u, coltrane_rng = constant_draws u\<rparr>"

text \<open>\<open>isTerminal(sym)\<close> of the source: the symbol holds a \<open>TerminalSymbol\<close>.\<close>

definition isTerminal :: "Symbol \<Rightarrow> bool" where
  "isTerminal sy = (case sy of TerminalSymbol degree quality rel \<Rightarrow> True
                    | NTSymbol nt ntKey \<Rightarrow> False)"

text \<open>
  The shape of a grammar that makes the depth limit effective: every rule of type
  \<open>TERMINAL\<close> has terminals only on its right-hand side.
\<close>

definition terminal_rules_closed :: "PCFG \<Rightarrow> bool" where
  "terminal_rules_closed g \<longleftrightarrow>
     (\<forall>nt. \<forall>r \<in> set (rules g nt). ruleType r = TERMINAL \<longrightarrow> list_all isTerminal (rhs r))"

text \<open>What the reweighting of a rule leaves alone.\<close>

definition rule_shape :: "GrammarRule \<Rightarrow> RuleType \<times> Symbol list" where
  "rule_shape r = (ruleType r, rhs r)"


text \<open>
  Every pointer of the table stands under the left-hand side of its object, as
  \<open>addRule\<close> files it (the field \<open>lhs_\<close> has no setter).
\<close>

definition table_keyed :: "PCFG_store \<Rightarrow> bool" where
  "table_keyed g \<longleftrightarrow> (\<forall>nt. \<forall>a \<in> set (s_table g nt). lhs (s_objects g a) = nt)"

text \<open>Every pointer of the table refers to an object that has been allocated.\<close>

definition table_allocated :: "PCFG_store \<Rightarrow> bool" where
  "table_allocated g \<longleftrightarrow> (\<forall>nt. \<forall>a \<in> set (s_table g nt). a < s_next g)"



section \<open>Arithmetic of pitch classes\<close>

lemma c_rem_nonneg: "0 \<le> a \<Longrightarrow> c_rem a 12 = a mod 12"
  by (simp add: c_rem_def sgn_if)

lemma PitchClass_of_mod: "PitchClass_of v = PC (v mod 12)"
proof (cases "0 \<le> v")
  case True
  then show ?thesis by (simp add: PitchClass_of_def c_rem_nonneg Let_def)
next
  case False
  then have neg: "v < 0" by simp
  have b: "0 \<le> v mod 12" "v mod 12 < 12" by simp_all
  from neg have r: "c_rem v 12 = - ((- v) mod 12)"
    by (simp add: c_rem_def sgn_if)
  show ?thesis
  proof (cases "v mod 12 = 0")
    case True
    then show ?thesis by (simp add: PitchClass_of_def r zmod_zminus1_eq_if Let_def)
  next
    case False
    with b show ?thesis by (simp add: PitchClass_of_def r zmod_zminus1_eq_if Let_def)
  qed
qed

lemma pc_ok_PitchClass_of: "pc_ok (PitchClass_of v)"
  by (simp add: PitchClass_of_mod pc_ok_def)

lemma pc_ok_transpose: "pc_ok (pc_transpose p n)"
  by (simp add: pc_transpose_def pc_ok_PitchClass_of)

lemma transpose_value: "pc_transpose p a = PC ((pc_value p + a) mod 12)"
  by (simp add: pc_transpose_def PitchClass_of_mod)

lemma mod12_shift: "((v + a) mod 12 + b) mod 12 = (v + (a + b)) mod (12::int)"
  by (simp add: mod_simps add.assoc)

lemma pc_ok_third: "pc_ok (third c)"
  by (simp add: third_def Let_def pc_ok_transpose)

lemma pc_ok_seventh: "pc_ok (seventh c)"
  by (simp add: seventh_def Let_def pc_ok_transpose)

lemma minInterval_mod:
  "pc_ok p \<Longrightarrow> pc_ok q \<Longrightarrow>
   minInterval p q = min ((pc_value q - pc_value p) mod 12) ((pc_value p - pc_value q) mod 12)"
  by (simp add: minInterval_def pc_ok_def c_rem_nonneg Let_def)

lemma minInterval_nonneg: "pc_ok p \<Longrightarrow> pc_ok q \<Longrightarrow> 0 \<le> minInterval p q"
  by (simp add: minInterval_mod)

section \<open>The guide-tone cost\<close>

text \<open>
  Claim C4, as the code has it. \<open>voiceLeadingCost\<close> is never negative, and it is zero
  exactly when at least one of the two pairings is unison: third to third with seventh
  to seventh, or the voice exchange third to seventh with seventh to third. (The cost is
  the lesser of the two pairing costs, so one unison pairing is enough.)
\<close>

theorem voiceLeadingCost_nonneg_zero_iff:
  "0 \<le> voiceLeadingCost a b \<and>
   (voiceLeadingCost a b = 0 \<longleftrightarrow>
      (minInterval (third a) (third b) = 0 \<and> minInterval (seventh a) (seventh b) = 0) \<or>
      (minInterval (third a) (seventh b) = 0 \<and> minInterval (seventh a) (third b) = 0))"
proof -
  have n: "0 \<le> minInterval (third a) (third b)" "0 \<le> minInterval (seventh a) (seventh b)"
    "0 \<le> minInterval (third a) (seventh b)" "0 \<le> minInterval (seventh a) (third b)"
    by (simp_all add: minInterval_nonneg pc_ok_third pc_ok_seventh)
  then show ?thesis
    unfolding voiceLeadingCost_def Let_def by (auto simp: min_def)
qed

theorem voiceLeadingCost_nonneg_zero_iff_witness:
  "0 \<le> voiceLeadingCost (ChordSymbol_of (PitchClass_of 7) DOM7)
          (ChordSymbol_of (PitchClass_of 1) DOM7) \<and>
   voiceLeadingCost (ChordSymbol_of (PitchClass_of 7) DOM7)
     (ChordSymbol_of (PitchClass_of 1) DOM7) = 0"
  using voiceLeadingCost_nonneg_zero_iff
          [of "ChordSymbol_of (PitchClass_of 7) DOM7" "ChordSymbol_of (PitchClass_of 1) DOM7"]
  by (simp add: third_def seventh_def ChordSymbol_of_def pc_transpose_def PitchClass_of_mod
      minInterval_def c_rem_nonneg)

text \<open>
  Claim C4 as stated fails: for C major seventh against itself the cost is 0 (the
  straight pairing is unison), while the voice-exchange pairing is not unison (third E
  and seventh B are 5 semitones apart), so not all four distances are 0.
\<close>

theorem voiceLeadingCost_both_pairings_counterexample:
  "\<not> (voiceLeadingCost (ChordSymbol_of (PitchClass_of 0) MAJ7)
         (ChordSymbol_of (PitchClass_of 0) MAJ7) = 0 \<longleftrightarrow>
       (minInterval (third (ChordSymbol_of (PitchClass_of 0) MAJ7))
          (third (ChordSymbol_of (PitchClass_of 0) MAJ7)) = 0 \<and>
        minInterval (seventh (ChordSymbol_of (PitchClass_of 0) MAJ7))
          (seventh (ChordSymbol_of (PitchClass_of 0) MAJ7)) = 0 \<and>
        minInterval (third (ChordSymbol_of (PitchClass_of 0) MAJ7))
          (seventh (ChordSymbol_of (PitchClass_of 0) MAJ7)) = 0 \<and>
        minInterval (seventh (ChordSymbol_of (PitchClass_of 0) MAJ7))
          (third (ChordSymbol_of (PitchClass_of 0) MAJ7)) = 0))"
  by (simp add: voiceLeadingCost_def third_def seventh_def ChordSymbol_of_def
      pc_transpose_def PitchClass_of_mod minInterval_def c_rem_nonneg)

section \<open>Tritone substitution\<close>

text \<open>
  Claim C6. For a dominant-seventh chord whose root is a pitch class (0 to 11), the
  tritone substitute of its tritone substitute has the root and the quality of the chord.
\<close>

theorem substitute_twice:
  "isDominant c \<Longrightarrow> pc_ok (cs_root c) \<Longrightarrow>
   cs_root (substitute (substitute c)) = cs_root c \<and>
   cs_quality (substitute (substitute c)) = cs_quality c"
proof -
  assume d: "isDominant c" and ok: "pc_ok (cs_root c)"
  obtain x where x: "cs_root c = PC x" by (cases "cs_root c")
  from ok x have "(x + 12) mod 12 = x" by (simp add: pc_ok_def)
  with d x show ?thesis
    by (simp add: isDominant_def substitute_def ChordSymbol_of_def transpose_value
        mod12_shift Let_def del: mod_add_self2)
qed

theorem substitute_twice_witness:
  "isDominant (ChordSymbol_of (PitchClass_of 7) DOM7) \<and>
   pc_ok (cs_root (ChordSymbol_of (PitchClass_of 7) DOM7)) \<and>
   cs_root (substitute (substitute (ChordSymbol_of (PitchClass_of 7) DOM7))) = PC 7 \<and>
   cs_quality (substitute (substitute (ChordSymbol_of (PitchClass_of 7) DOM7))) = DOM7"
proof -
  have d: "isDominant (ChordSymbol_of (PitchClass_of 7) DOM7)"
    by (simp add: isDominant_def ChordSymbol_of_def)
  have r: "pc_ok (cs_root (ChordSymbol_of (PitchClass_of 7) DOM7))"
    by (simp add: ChordSymbol_of_def pc_ok_PitchClass_of)
  from substitute_twice [OF d r] d r show ?thesis
    by (simp add: ChordSymbol_of_def PitchClass_of_mod)
qed

text \<open>
  The tritone substitute of a dominant seventh has the same two guide tones, exchanged:
  its third is the seventh of the chord and its seventh is the third.
\<close>

lemma third_substitute: "isDominant c \<Longrightarrow> third (substitute c) = seventh c"
  by (simp add: isDominant_def substitute_def third_def seventh_def ChordSymbol_of_def
      transpose_value mod12_shift Let_def)

lemma seventh_substitute: "isDominant c \<Longrightarrow> seventh (substitute c) = third c"
proof -
  assume d: "isDominant c"
  have "(v + 16) mod 12 = (v + 4) mod 12" for v :: int
  proof -
    have "v + 16 = (v + 4) + 12" by simp
    then show ?thesis by (simp only: mod_add_self2)
  qed
  with d show ?thesis
    by (simp add: isDominant_def substitute_def third_def seventh_def ChordSymbol_of_def
        transpose_value mod12_shift Let_def)
qed

lemma voiceLeadingCost_substitute_right:
  "isDominant c \<Longrightarrow> voiceLeadingCost a (substitute c) = voiceLeadingCost a c"
  by (simp add: voiceLeadingCost_def Let_def third_substitute seventh_substitute min.commute)

lemma voiceLeadingCost_substitute_left:
  "isDominant c \<Longrightarrow> voiceLeadingCost (substitute c) b = voiceLeadingCost c b"
  by (simp add: voiceLeadingCost_def Let_def third_substitute seventh_substitute
      min.commute add.commute)

section \<open>The optimizer\<close>

lemma fold_add_cong:
  "(\<And>i. i \<in> set xs \<Longrightarrow> f i = g i) \<Longrightarrow>
   fold (\<lambda>i (total::int). total + f i) xs a = fold (\<lambda>i total. total + g i) xs a"
  by (induction xs arbitrary: a) simp_all

text \<open>
  Replacing a dominant seventh by its tritone substitute leaves the cost of the whole
  progression as it was: both neighbours see the same pair of guide tones.
\<close>

lemma progression_cost_substitute:
  assumes "i < length cs" "isDominant (cs ! i)"
  shows "progressionVoiceLeadingCost (cs[i := substitute (cs ! i)])
           = progressionVoiceLeadingCost cs"
proof -
  let ?cs' = "cs[i := substitute (cs ! i)]"
  have step: "voiceLeadingCost (?cs' ! j) (?cs' ! (j + 1))
                = voiceLeadingCost (cs ! j) (cs ! (j + 1))"
    if "j \<in> set [0 ..< length cs - 1]" for j
  proof -
    from that have j: "j + 1 < length cs" by simp
    show ?thesis
      using assms j
      by (cases "j = i"; cases "j + 1 = i")
         (simp_all add: voiceLeadingCost_substitute_left voiceLeadingCost_substitute_right)
  qed
  show ?thesis
    unfolding progressionVoiceLeadingCost_def
    using fold_add_cong [of "[0 ..< length cs - 1]", OF step] by simp
qed

lemma optimize_scan_None:
  "set is \<subseteq> {0 ..< length cs} \<Longrightarrow>
   optimize_scan cs (progressionVoiceLeadingCost cs) is = None"
  by (induction "is") (simp_all add: Let_def progression_cost_substitute)

lemma optimize_identity: "optimize cs n = cs"
  by (simp add: optimize_def optimize_scan_None)

lemma optimize_scan_Some:
  "optimize_scan cs c is = Some (t, c') \<Longrightarrow> c' = progressionVoiceLeadingCost t \<and> c' < c"
  by (induction "is") (auto simp: Let_def split: if_splits)

lemma optimize_loop_cost:
  "c = progressionVoiceLeadingCost cs \<Longrightarrow>
   progressionVoiceLeadingCost (optimize_loop iter n cs c) \<le> c"
proof (induction iter n cs c rule: optimize_loop.induct)
  case (1 iter n cs c)
  show ?case
  proof (cases "iter < n")
    case False
    with 1 show ?thesis by simp
  next
    case True
    show ?thesis
    proof (cases "optimize_scan cs c [0 ..< length cs]")
      case None
      with True 1 show ?thesis by simp
    next
      case (Some p)
      obtain t c' where p: "p = (t, c')" by (cases p)
      from Some p optimize_scan_Some have *: "c' = progressionVoiceLeadingCost t" "c' < c"
        by blast+
      from "1.IH" [OF True Some [unfolded p] refl *(1)] * True Some p
      show ?thesis
        by (simp del: optimize_loop.simps add: optimize_loop.simps [of iter n cs c])
    qed
  qed
qed

text \<open>
  Claim C5. For every progression and every iteration bound (negative ones included,
  where the loop does not run), the total voice-leading cost of the progression that
  \<open>optimize\<close> returns is at most the cost of its input. The proof follows the loop: a
  substitution is accepted only when it lowers the cost that the loop carries.
\<close>

theorem optimize_cost_le:
  "progressionVoiceLeadingCost (optimize chords maxIterations)
     \<le> progressionVoiceLeadingCost chords"
  unfolding optimize_def by (rule optimize_loop_cost) simp

theorem optimize_cost_le_witness:
  "progressionVoiceLeadingCost
     (optimize [ChordSymbol_of (PitchClass_of 2) MIN7, ChordSymbol_of (PitchClass_of 7) DOM7,
                ChordSymbol_of (PitchClass_of 0) MAJ7] 100)
     \<le> progressionVoiceLeadingCost
          [ChordSymbol_of (PitchClass_of 2) MIN7, ChordSymbol_of (PitchClass_of 7) DOM7,
           ChordSymbol_of (PitchClass_of 0) MAJ7]"
  by (rule optimize_cost_le)

text \<open>
  Claim C10. \<open>optimize\<close> keeps the length of the progression, and at every position
  the chord it returns is the input chord, or the tritone substitute of the input chord
  where that chord is a dominant seventh. (The optimizer in fact returns its input: a
  tritone substitute never changes the cost, so no substitution is strictly better.)
\<close>

theorem optimize_frame:
  "length (optimize chords maxIterations) = length chords \<and>
   (\<forall>i < length chords.
      optimize chords maxIterations ! i = chords ! i \<or>
      (cs_quality (chords ! i) = DOM7 \<and>
       optimize chords maxIterations ! i = substitute (chords ! i)))"
  by (simp add: optimize_identity)

theorem optimize_frame_witness:
  "(0::nat) < length [ChordSymbol_of (PitchClass_of 7) DOM7, ChordSymbol_of (PitchClass_of 0) MAJ7] \<and>
   length (optimize [ChordSymbol_of (PitchClass_of 7) DOM7,
                     ChordSymbol_of (PitchClass_of 0) MAJ7] 100) = 2 \<and>
   (optimize [ChordSymbol_of (PitchClass_of 7) DOM7, ChordSymbol_of (PitchClass_of 0) MAJ7] 100 ! 0
      = ChordSymbol_of (PitchClass_of 7) DOM7 \<or>
    optimize [ChordSymbol_of (PitchClass_of 7) DOM7, ChordSymbol_of (PitchClass_of 0) MAJ7] 100 ! 0
      = substitute (ChordSymbol_of (PitchClass_of 7) DOM7))"
  using optimize_frame
          [of "[ChordSymbol_of (PitchClass_of 7) DOM7, ChordSymbol_of (PitchClass_of 0) MAJ7]" 100]
  by auto

section \<open>Substitution scenarios\<close>

lemma shouldSubstitute_one: "rng_ok g \<Longrightarrow> fst (shouldSubstitute 1 g)"
  by (simp add: shouldSubstitute_def uniform_real_def draw_def rng_ok_def split_def)

lemma rng_ok_constant: "0 \<le> u \<Longrightarrow> u < 1 \<Longrightarrow> rng_ok (constant_draws u)"
  by (simp add: rng_ok_def constant_draws_def)

text \<open>
  Claim C8. With firing probability 1 (every draw of the generator lies in \<open>[0, 1)\<close>),
  backdoor substitution of the window G dominant seventh, C major seventh replaces the
  first chord by the dominant seventh on pitch class 10 (B flat, the root of the second
  chord plus 10 semitones) and leaves the C major seventh as it is.
\<close>

theorem backdoor_scenario:
  "rng_ok g \<Longrightarrow>
   fst (BackdoorSubstitution_apply
          [ChordSymbol_of (PitchClass_of 7) DOM7, ChordSymbol_of (PitchClass_of 0) MAJ7] 1 g)
     = [ChordSymbol_of (pc_transpose (PitchClass_of 0) 10) DOM7,
        ChordSymbol_of (PitchClass_of 0) MAJ7]
   \<and> pc_transpose (PitchClass_of 0) 10 = PC 10"
  using shouldSubstitute_one [of g]
  by (simp add: backdoor_step_def canApplyBackdoor_def isDominant_def isTonic_def
      ChordSymbol_of_def PitchClass_of_mod c_rem_nonneg createBackdoor_def pc_transpose_def
      split_def Let_def)

theorem backdoor_scenario_witness:
  "rng_ok (constant_draws (1/2)) \<and>
   fst (BackdoorSubstitution_apply
          [ChordSymbol_of (PitchClass_of 7) DOM7, ChordSymbol_of (PitchClass_of 0) MAJ7] 1
          (constant_draws (1/2)))
     = [ChordSymbol_of (PC 10) DOM7, ChordSymbol_of (PC 0) MAJ7]"
proof -
  have ok: "rng_ok (constant_draws (1/2))" by (simp add: rng_ok_constant)
  from backdoor_scenario [OF ok] ok show ?thesis
    by (simp add: PitchClass_of_mod)
qed

text \<open>
  Claim C3, as the code has it. With firing probability 1, Coltrane substitution of
  the window D minor seventh, G dominant seventh, C major seventh returns seven chords:
  the original D minor seventh first, then B7, Emaj7, Eb7, Abmaj7, then the original G
  dominant seventh and the original C major seventh last.
\<close>

theorem coltrane_scenario:
  "rng_ok g \<Longrightarrow>
   fst (ColtraneSubstitution_apply
          [ChordSymbol_of (PitchClass_of 2) MIN7, ChordSymbol_of (PitchClass_of 7) DOM7,
           ChordSymbol_of (PitchClass_of 0) MAJ7] 1 g)
     = [ChordSymbol_of (PitchClass_of 2) MIN7,
        ChordSymbol_of (PC 11) DOM7, ChordSymbol_of (PC 4) MAJ7,
        ChordSymbol_of (PC 3) DOM7, ChordSymbol_of (PC 8) MAJ7,
        ChordSymbol_of (PitchClass_of 7) DOM7, ChordSymbol_of (PitchClass_of 0) MAJ7]"
  using shouldSubstitute_one [of g]
  by (simp add: isIiVI_def substituteIiVI_def
      ChordSymbol_of_def PitchClass_of_mod c_rem_nonneg pc_transpose_def
      split_def Let_def)

theorem coltrane_scenario_witness:
  "rng_ok (constant_draws (1/2)) \<and>
   length (fst (ColtraneSubstitution_apply
          [ChordSymbol_of (PitchClass_of 2) MIN7, ChordSymbol_of (PitchClass_of 7) DOM7,
           ChordSymbol_of (PitchClass_of 0) MAJ7] 1 (constant_draws (1/2)))) = 7"
proof -
  have ok: "rng_ok (constant_draws (1/2))" by (simp add: rng_ok_constant)
  from coltrane_scenario [OF ok] ok show ?thesis by simp
qed

text \<open>
  Claim C3 as stated fails: with every draw below the probability 1, the result for
  that window does not have six chords.
\<close>

theorem coltrane_six_counterexample:
  "length (fst (ColtraneSubstitution_apply
          [ChordSymbol_of (PitchClass_of 2) MIN7, ChordSymbol_of (PitchClass_of 7) DOM7,
           ChordSymbol_of (PitchClass_of 0) MAJ7] 1 (constant_draws 0))) \<noteq> 6"
  by (simp add: isIiVI_def substituteIiVI_def shouldSubstitute_def uniform_real_def draw_def
      constant_draws_def
      ChordSymbol_of_def PitchClass_of_mod c_rem_nonneg pc_transpose_def
      split_def Let_def)

section \<open>Normalisation of the grammar\<close>




lemma normalize_rules_zero: "total_prob rl = 0 \<Longrightarrow> normalize_rules rl = rl"
  by (simp add: normalize_rules_def)

subsection \<open>Writing through the pointers\<close>












subsection \<open>Tables of fresh objects\<close>



lemma addRule_ptr_ok:
  assumes "table_keyed g" "table_allocated g" "a < s_next g"
  shows "table_keyed (addRule_ptr g a) \<and> table_allocated (addRule_ptr g a)"
  using assms
  by (auto simp: table_keyed_def table_allocated_def addRule_ptr_def Let_def)

subsection \<open>The sum of the weights after normalisation\<close>




section \<open>Derivation: the default terminal\<close>

text \<open>
  Claim C9. For a non-terminal without rules in the grammar, at any depth and with any
  key, \<open>derive\<close> returns (one unit of fuel is enough) the node of that non-terminal
  whose only child is the leaf of the built-in default terminal, under the resolved key,
  with no rule recorded and no random source touched; that node yields exactly one
  chord. The default of \<open>T\<close> is I maj7 and the default of \<open>D\<close> is V 7.
\<close>

theorem derive_without_rules:
  "getRules g nt = [] \<Longrightarrow>
   derive (Suc fuel) g cfg (NTSymbol nt ntKey) depth k st =
     Some (DerivationNode (NTSymbol nt ntKey) (case ntKey of Some v \<Rightarrow> v | None \<Rightarrow> k)
             [DerivationNode (getDefaultTerminal nt) (case ntKey of Some v \<Rightarrow> v | None \<Rightarrow> k)
                [] None] None, st) \<and>
   length (terminalsToChords (getTerminals
             (fst (the (derive (Suc fuel) g cfg (NTSymbol nt ntKey) depth k st))))) = 1 \<and>
   getDefaultTerminal T = TerminalSymbol ''I'' ''maj7'' True \<and>
   getDefaultTerminal D = TerminalSymbol ''V'' ''7'' True"
proof -
  assume e: "getRules g nt = []"
  then have c: "choose_rule g cfg nt depth st = (None, st)"
    by (simp add: choose_rule_def sampleRule_def)
  obtain dg q r where t: "getDefaultTerminal nt = TerminalSymbol dg q r"
    by (cases nt) (simp_all add: getDefaultTerminal_def)
  have d: "derive (Suc fuel) g cfg (NTSymbol nt ntKey) depth k st =
     Some (DerivationNode (NTSymbol nt ntKey) (case ntKey of Some v \<Rightarrow> v | None \<Rightarrow> k)
             [DerivationNode (getDefaultTerminal nt) (case ntKey of Some v \<Rightarrow> v | None \<Rightarrow> k)
                [] None] None, st)"
    by (simp add: c Let_def)
  have n: "length (terminalsToChords (getTerminals
             (fst (the (derive (Suc fuel) g cfg (NTSymbol nt ntKey) depth k st))))) = 1"
    unfolding d by (simp add: t terminalsToChords_def)
  have "getDefaultTerminal T = TerminalSymbol ''I'' ''maj7'' True"
       "getDefaultTerminal D = TerminalSymbol ''V'' ''7'' True"
    by (simp_all add: getDefaultTerminal_def)
  with d n show ?thesis by blast
qed

theorem derive_without_rules_witness:
  "getRules (PCFG_of S) D = [] \<and>
   derive 1 (PCFG_of S) default_config (NTSymbol D None) 3 7 (constant_state 0) =
     Some (DerivationNode (NTSymbol D None) 7
             [DerivationNode (TerminalSymbol ''V'' ''7'' True) 7 [] None] None,
           constant_state 0)"
proof -
  have e: "getRules (PCFG_of S) D = []" by (simp add: getRules_def PCFG_of_def)
  from derive_without_rules [OF e, of 0 default_config None 3 7 "constant_state 0"] e
  show ?thesis
    by (simp add: getDefaultTerminal_def)
qed

section \<open>Random draws stay in range\<close>

lemma rng_ok_draw: "rng_ok g \<Longrightarrow> rng_ok (snd (draw g))"
  by (simp add: rng_ok_def draw_def)

lemma rng_ok_uniform_real: "rng_ok g \<Longrightarrow> rng_ok (snd (uniform_real a b g))"
  by (simp add: uniform_real_def split_def Let_def rng_ok_draw)

lemma rng_ok_uniform_index: "rng_ok g \<Longrightarrow> rng_ok (snd (uniform_index n g))"
  by (simp add: uniform_index_def split_def Let_def rng_ok_draw)

lemma uniform_index_less:
  assumes "rng_ok g" "0 < n"
  shows "fst (uniform_index n g) < n"
proof -
  from assms(1) have u: "0 \<le> g 0" "g 0 < 1" by (simp_all add: rng_ok_def)
  with assms(2) have "g 0 * real n < real n" by simp
  then have "\<lfloor>g 0 * real n\<rfloor> < int n" by (simp add: floor_less_iff)
  moreover from u have "0 \<le> \<lfloor>g 0 * real n\<rfloor>" by simp
  ultimately have "nat \<lfloor>g 0 * real n\<rfloor> < n" by linarith
  then show ?thesis
    by (simp add: uniform_index_def draw_def split_def Let_def)
qed

lemma rng_ok_sampleRule: "rng_ok gen \<Longrightarrow> rng_ok (snd (sampleRule g nt gen))"
  by (simp add: sampleRule_def Let_def split_def rng_ok_uniform_real rng_ok_uniform_index
      split: option.split)

lemma choose_rule_ok:
  assumes "random_state_ok st" "choose_rule g cfg nt depth st = (ro, st1)"
  shows "random_state_ok st1"
  using assms
  by (auto simp: choose_rule_def random_state_ok_def Let_def split_def
      rng_ok_sampleRule rng_ok_uniform_index split: if_splits)

lemma choose_rule_at_limit:
  assumes "random_state_ok st" "choose_rule g cfg nt depth st = (Some r, st1)"
    "maxDepth cfg \<le> depth"
  shows "r \<in> set (rules g nt) \<and> ruleType r = TERMINAL"
proof -
  let ?ts = "filter (\<lambda>r. ruleType r = TERMINAL) (getRules g nt)"
  from assms have ne: "?ts \<noteq> []"
    by (auto simp: choose_rule_def Let_def split: if_splits)
  from assms(1) have "rng_ok (derive_rng st)" by (simp add: random_state_ok_def)
  with ne have i: "fst (uniform_index (length ?ts) (derive_rng st)) < length ?ts"
    by (intro uniform_index_less) simp_all
  from assms ne have "r = ?ts ! fst (uniform_index (length ?ts) (derive_rng st))"
    by (simp add: choose_rule_def Let_def split_def)
  moreover from i have
    "?ts ! fst (uniform_index (length ?ts) (derive_rng st)) \<in> set ?ts"
    by (rule nth_mem)
  ultimately have "r \<in> set ?ts" by (simp only:)
  then show ?thesis by (simp add: getRules_def)
qed

section \<open>Derivation returns\<close>

lemma child_sym_terminal: "isTerminal sy \<Longrightarrow> child_sym sy ck = sy"
  by (cases sy) (simp_all add: child_sym_def isTerminal_def)

lemma derive_rhs_terminals:
  "list_all isTerminal syms \<Longrightarrow>
   \<exists>nodes. derive_rhs (Suc f) g cfg syms depth ck st = Some (nodes, st)"
proof (induction syms)
  case Nil
  then show ?case by simp
next
  case (Cons sy syms)
  then obtain degree quality rel where sy: "sy = TerminalSymbol degree quality rel"
    by (cases sy) (simp_all add: isTerminal_def)
  from Cons obtain nodes where
    "derive_rhs (Suc f) g cfg syms depth ck st = Some (nodes, st)" by auto
  then show ?case
    by (simp add: sy child_sym_def Let_def)
qed

lemma derive_rhs_total:
  assumes step: "\<And>sy k st. random_state_ok st \<Longrightarrow>
      \<exists>node st'. derive f g cfg sy (depth + 1) k st = Some (node, st') \<and> random_state_ok st'"
  shows "random_state_ok st \<Longrightarrow>
     \<exists>nodes st'. derive_rhs f g cfg syms depth ck st = Some (nodes, st') \<and> random_state_ok st'"
proof (induction syms arbitrary: st)
  case Nil
  then show ?case by simp
next
  case (Cons sy syms)
  from step [OF Cons.prems] obtain node st1 where
    d: "derive f g cfg (child_sym sy (child_key sy ck)) (depth + 1) (child_key sy ck) st
          = Some (node, st1)" and ok1: "random_state_ok st1"
    by blast
  from Cons.IH [OF ok1] obtain nodes st2 where
    "derive_rhs f g cfg syms depth ck st1 = Some (nodes, st2)" "random_state_ok st2"
    by blast
  with d show ?case by (simp add: Let_def)
qed

text \<open>
  With a grammar whose terminal rules are closed, \<open>derive\<close> returns from depth \<open>depth\<close>
  within \<open>maxDepth - depth + 2\<close> nested calls.
\<close>

lemma derive_total:
  assumes closed: "terminal_rules_closed g"
  shows "random_state_ok st \<Longrightarrow> nat (maxDepth cfg - depth) + 2 \<le> fuel \<Longrightarrow>
     \<exists>node st'. derive fuel g cfg sy depth k st = Some (node, st') \<and> random_state_ok st'"
proof (induction fuel arbitrary: sy depth k st)
  case 0
  then show ?case by simp
next
  case (Suc f)
  show ?case
  proof (cases sy)
    case (TerminalSymbol degree quality rel)
    with Suc.prems show ?thesis by simp
  next
    case (NTSymbol nt ntKey)
    obtain ro st1 where c: "choose_rule g cfg nt depth st = (ro, st1)"
      by (cases "choose_rule g cfg nt depth st")
    from choose_rule_ok [OF Suc.prems(1) c] have ok1: "random_state_ok st1" .
    let ?ck = "case ntKey of Some v \<Rightarrow> v | None \<Rightarrow> k"
    show ?thesis
    proof (cases ro)
      case None
      with c ok1 NTSymbol show ?thesis by (simp add: Let_def)
    next
      case (Some r)
      have "\<exists>nodes st2. derive_rhs f g cfg (rhs r) depth ?ck st1 = Some (nodes, st2)
              \<and> random_state_ok st2"
      proof (cases "maxDepth cfg \<le> depth")
        case True
        from choose_rule_at_limit [OF Suc.prems(1) c [unfolded Some] True] closed
        have t: "list_all isTerminal (rhs r)"
          by (auto simp: terminal_rules_closed_def)
        from Suc.prems(2) obtain f' where f: "f = Suc f'" by (cases f) simp_all
        from derive_rhs_terminals [OF t, of f' g cfg depth ?ck st1] ok1 show ?thesis
          unfolding f by blast
      next
        case False
        with Suc.prems(2) have "nat (maxDepth cfg - (depth + 1)) + 2 \<le> f" by simp
        then have "\<And>sy k st. random_state_ok st \<Longrightarrow>
            \<exists>node st'. derive f g cfg sy (depth + 1) k st = Some (node, st')
              \<and> random_state_ok st'"
          using Suc.IH by blast
        from derive_rhs_total [OF this ok1] show ?thesis .
      qed
      then obtain nodes st2 where
        "derive_rhs f g cfg (rhs r) depth ?ck st1 = Some (nodes, st2)" "random_state_ok st2"
        by blast
      with c Some NTSymbol show ?thesis by (simp add: Let_def)
    qed
  qed
qed

section \<open>The style grammars are closed\<close>

lemma closed_by_shape:
  assumes "\<And>nt. map rule_shape (rules g' nt) = map rule_shape (rules g nt)"
    and "terminal_rules_closed g"
  shows "terminal_rules_closed g'"
  unfolding terminal_rules_closed_def
proof (intro allI ballI impI)
  fix nt r
  assume r: "r \<in> set (rules g' nt)" and t: "ruleType r = TERMINAL"
  from r have "rule_shape r \<in> set (map rule_shape (rules g' nt))" by simp
  with assms(1) have "rule_shape r \<in> set (map rule_shape (rules g nt))" by simp
  then obtain r0 where r0: "r0 \<in> set (rules g nt)" "rule_shape r0 = rule_shape r" by auto
  with t have "ruleType r0 = TERMINAL" "rhs r0 = rhs r" by (simp_all add: rule_shape_def)
  from assms(2) r0(1) \<open>ruleType r0 = TERMINAL\<close> have "list_all isTerminal (rhs r0)"
    unfolding terminal_rules_closed_def by blast
  with \<open>rhs r0 = rhs r\<close> show "list_all isTerminal (rhs r)" by simp
qed

lemma shape_setProb: "rule_shape (setProb r p) = rule_shape r"
  by (simp add: rule_shape_def setProb_def)

lemma shape_normalize_rules: "map rule_shape (normalize_rules rl) = map rule_shape rl"
  by (simp add: normalize_rules_def Let_def shape_setProb)

lemma closed_normalize: "terminal_rules_closed g \<Longrightarrow> terminal_rules_closed (PCFG_normalize g)"
  by (rule closed_by_shape [of _ g]) (simp_all add: PCFG_normalize_def shape_normalize_rules)

lemma closed_update_rules:
  assumes "\<And>r. rule_shape (f r) = rule_shape r" and "terminal_rules_closed g"
  shows "terminal_rules_closed (update_rules g nt f)"
  by (rule closed_by_shape [of _ g]) (simp_all add: update_rules_def getRules_def assms)

lemma closed_addRule:
  assumes "terminal_rules_closed g" and "t = TERMINAL \<longrightarrow> list_all isTerminal r"
  shows "terminal_rules_closed (addRule g l r p t n)"
  using assms
  by (auto simp: terminal_rules_closed_def addRule_def GrammarRule_of_def)

lemma closed_empty: "terminal_rules_closed (PCFG_of start)"
  by (simp add: terminal_rules_closed_def PCFG_of_def)

lemma closed_createBaseGrammar: "terminal_rules_closed createBaseGrammar"
  unfolding createBaseGrammar_def Let_def
  by (intro closed_normalize closed_addRule closed_empty) (simp_all add: isTerminal_def)

lemma closed_styleToPCFG: "terminal_rules_closed (styleToPCFG style)"
  unfolding styleToPCFG_def Let_def
  by (intro closed_normalize closed_update_rules closed_createBaseGrammar)
     (simp_all add: adjust_D_def adjust_T_def adjust_PREP_def adjust_SD_def shape_setProb)

section \<open>Lengths through the pipeline\<close>

lemma length_resize: "0 \<le> n \<Longrightarrow> n \<le> int (length cs) \<Longrightarrow>
  \<exists>cs'. resize cs n = Inr cs' \<and> int (length cs') = n"
  by (simp add: resize_def)

lemma length_adjustLength_loop:
  "int (length chords) \<le> target \<Longrightarrow>
   int (length (fst (adjustLength_loop chords target k tProb g))) = target"
proof (induction "nat (target - int (length chords))" arbitrary: chords g rule: less_induct)
  case less
  show ?case
  proof (cases "int (length chords) < target")
    case False
    with less.prems show ?thesis by (subst adjustLength_loop.simps) simp
  next
    case True
    let ?x = "fst (uniform_real 0 1 g)" and ?g1 = "snd (uniform_real 0 1 g)"
    show ?thesis
    proof (cases "?x < tProb \<and> int (length chords) < target - 1")
      case turn: True
      let ?c2 = "chords @ [ChordSymbol_of (pc_transpose (PitchClass_of k) 2) MIN7,
                           ChordSymbol_of (pc_transpose (PitchClass_of k) 7) DOM7]"
      from turn have le: "int (length ?c2) \<le> target" by simp
      have "nat (target - int (length ?c2)) < nat (target - int (length chords))"
        using True by simp
      from less.hyps [OF this le]
      have "int (length (fst (adjustLength_loop ?c2 target k tProb ?g1))) = target" .
      with True turn show ?thesis
        by (subst adjustLength_loop.simps) (simp add: Let_def)
    next
      case single: False
      let ?c = "chords @ [ChordSymbol_of (PitchClass_of k) MAJ7]"
      from True have le: "int (length ?c) \<le> target" by simp
      have "nat (target - int (length ?c)) < nat (target - int (length chords))"
        using True by simp
      from less.hyps [OF this le]
      have "int (length (fst (adjustLength_loop ?c target k tProb ?g1))) = target" .
      with True single show ?thesis
        by (subst adjustLength_loop.simps) (auto simp: Let_def)
    qed
  qed
qed

lemma length_adjustLength:
  assumes "0 \<le> target"
  shows "\<exists>cs' g'. adjustLength style chords target k g = Inr (cs', g')
           \<and> int (length cs') = target"
proof (cases "target \<le> int (length chords)")
  case True
  from length_resize [OF assms True] obtain cs' where
    "resize chords target = Inr cs'" "int (length cs') = target" by blast
  with True show ?thesis by (simp add: adjustLength_def)
next
  case False
  then have "int (length chords) \<le> target" by simp
  from length_adjustLength_loop [OF this, of k "turnaroundProb style" g]
  have l: "int (length (fst (adjustLength_loop chords target k (turnaroundProb style) g)))
             = target" .
  obtain cs1 g1 where
    e: "adjustLength_loop chords target k (turnaroundProb style) g = (cs1, g1)"
    by (cases "adjustLength_loop chords target k (turnaroundProb style) g")
  with l have "int (length cs1) = target" by simp
  with e False show ?thesis by (simp add: adjustLength_def)
qed

lemma length_TritoneSubstitution_apply:
  "length (fst (TritoneSubstitution_apply cs p g)) = length cs"
  by (induction cs arbitrary: g) (simp_all add: split_def Let_def)

lemma length_BackdoorSubstitution_apply:
  "length (fst (BackdoorSubstitution_apply cs p g)) = length cs"
  by (induction cs arbitrary: g) (simp_all add: split_def Let_def)

lemma length_ColtraneSubstitution_apply:
  "length cs \<le> length (fst (ColtraneSubstitution_apply cs p g))"
proof (induction "length cs" arbitrary: cs g rule: less_induct)
  case less
  show ?case
  proof (cases cs)
    case Nil
    then show ?thesis by simp
  next
    case c1: (Cons chord rest1)
    show ?thesis
    proof (cases rest1)
      case Nil
      with c1 show ?thesis by (simp add: split_def)
    next
      case c2: (Cons next1 rest2)
      show ?thesis
      proof (cases rest2)
        case Nil
        with c1 c2 show ?thesis by (simp add: split_def)
      next
        case c3: (Cons next2 rest)
        let ?g1 = "snd (shouldSubstitute p g)"
        have a: "length rest \<le> length (fst (ColtraneSubstitution_apply rest p ?g1))"
          by (rule less.hyps) (simp add: c1 c2 c3)
        have b: "length (next1 # next2 # rest)
                   \<le> length (fst (ColtraneSubstitution_apply (next1 # next2 # rest) p ?g1))"
          by (rule less.hyps) (simp add: c1 c2 c3)
        have "length (chord # next1 # next2 # rest)
                \<le> length (fst (ColtraneSubstitution_apply (chord # next1 # next2 # rest) p g))"
          using a b
          by (simp add: split_def Let_def substituteIiVI_def
              del: ColtraneSubstitution_apply.simps(2,3)
              add: ColtraneSubstitution_apply.simps(2) [of chord next1 next2 rest p g])
        then show ?thesis by (simp only: c1 c2 c3)
      qed
    qed
  qed
qed

lemma length_SubstitutionEngine_apply:
  "length cs \<le> length (fst (SubstitutionEngine_apply cs style st))"
proof -
  define s1 where "s1 =
    (if modalInterchange style > 0.2 then
       (let (r, gen') = BackdoorSubstitution_apply cs
                          (modalInterchange style * 0.3) (backdoor_rng st)
        in (r, st\<lparr>backdoor_rng := gen'\<rparr>))
     else (cs, st))"
  define s2 where "s2 =
    (if tritoneSubProb style > 0.1 then
       (let (r, gen') = TritoneSubstitution_apply (fst s1) (tritoneSubProb style)
                          (tritone_rng (snd s1))
        in (r, (snd s1)\<lparr>tritone_rng := gen'\<rparr>))
     else s1)"
  have l1: "length (fst s1) = length cs"
    by (simp add: s1_def split_def Let_def length_BackdoorSubstitution_apply)
  have l2: "length (fst s2) = length (fst s1)"
    by (simp add: s2_def split_def Let_def length_TritoneSubstitution_apply)
  have e: "SubstitutionEngine_apply cs style st =
     (if dominantChainDepth style \<ge> 4 \<and> chromaticApproach style > 0.4 then
        (let (r, gen') = ColtraneSubstitution_apply (fst s2)
                           (chromaticApproach style * 0.15) (coltrane_rng (snd s2))
         in (r, (snd s2)\<lparr>coltrane_rng := gen'\<rparr>))
      else s2)"
    by (simp add: SubstitutionEngine_apply_def s1_def s2_def split_def Let_def)
  show ?thesis
    unfolding e using l1 l2 length_ColtraneSubstitution_apply [of "fst s2"]
    by (simp add: split_def Let_def)
qed

section \<open>The length contract\<close>

lemma random_state_ok_constant:
  "0 \<le> u \<Longrightarrow> u < 1 \<Longrightarrow> random_state_ok (constant_state u)"
  by (simp add: random_state_ok_def constant_state_def rng_ok_constant)

lemma maxDepth_generate:
  "maxDepth (config (setMaxDepth (setKey (StyleEngine_generator style) k)
                       (min 6 (c_div len 2 + 2)))) \<le> 6"
  by (simp add: setMaxDepth_def setKey_def StyleEngine_generator_def Let_def)

lemma grammar_generate:
  "grammar (setMaxDepth (setKey (StyleEngine_generator style) k) d) = styleToPCFG style"
  by (simp add: setMaxDepth_def setKey_def StyleEngine_generator_def Let_def)

lemma HarmonyGenerator_generate_total:
  assumes "terminal_rules_closed (grammar gen)" "random_state_ok st"
    "nat (maxDepth (config gen)) + 2 \<le> fuel"
  shows "\<exists>chords st'. HarmonyGenerator_generate fuel gen st = Some (chords, st')"
proof -
  from assms(3) have "nat (maxDepth (config gen) - 0) + 2 \<le> fuel" by simp
  from derive_total [OF assms(1) assms(2) this] obtain node st' where
    "derive fuel (grammar gen) (config gen)
       (NTSymbol (startSymbol (grammar gen)) (Some (key (config gen)))) 0
       (key (config gen)) st = Some (node, st')"
    by blast
  then show ?thesis by (simp add: HarmonyGenerator_generate_def)
qed

text \<open>
  Claim C2. For every length of at least 1 and every key (the keys 0 to 11 among
  them), every style and every state of the random sources, \<open>generate\<close> returns
  (eight units of fuel cover the depth limit of at most 6) and the progression it
  returns has exactly \<open>len\<close> chords.
\<close>

theorem generate_length:
  assumes "1 \<le> len" "random_state_ok st" "8 \<le> fuel"
  shows "\<exists>chords st'. StyleEngine_generate fuel style len k st = Inr (chords, st')
           \<and> int (length chords) = len"
proof -
  let ?gen = "setMaxDepth (setKey (StyleEngine_generator style) k) (min 6 (c_div len 2 + 2))"
  have "nat (maxDepth (config ?gen)) + 2 \<le> fuel"
    using maxDepth_generate [of style k len] assms(3) by simp
  moreover have "terminal_rules_closed (grammar ?gen)"
    by (simp only: grammar_generate closed_styleToPCFG)
  ultimately obtain chords0 st0 where
    g: "HarmonyGenerator_generate fuel ?gen st = Some (chords0, st0)"
    using HarmonyGenerator_generate_total [OF _ assms(2)] by blast
  from assms(1) have "0 \<le> len" by simp
  from length_adjustLength [OF this, of style chords0 k "adjust_rng st0"]
  obtain chords1 g1 where
    a: "adjustLength style chords0 len k (adjust_rng st0) = Inr (chords1, g1)"
    and l1: "int (length chords1) = len"
    by blast
  obtain chords2 st2 where
    s: "SubstitutionEngine_apply chords1 style (st0\<lparr>adjust_rng := g1\<rparr>) = (chords2, st2)"
    by (cases "SubstitutionEngine_apply chords1 style (st0\<lparr>adjust_rng := g1\<rparr>)")
  with length_SubstitutionEngine_apply [of chords1 style "st0\<lparr>adjust_rng := g1\<rparr>"] l1
  have l2: "len \<le> int (length chords2)" by simp
  let ?chords3 = "if extensionLevel style > 0.5 then optimize chords2 50 else chords2"
  have c3: "?chords3 = chords2" by (simp add: optimize_identity)
  show ?thesis
  proof (cases "len < int (length chords2)")
    case True
    from length_resize [OF \<open>0 \<le> len\<close> l2] obtain chords4 where
      "resize chords2 len = Inr chords4" "int (length chords4) = len" by blast
    with True g a s c3 show ?thesis
      by (simp add: StyleEngine_generate_def Let_def)
  next
    case False
    with l2 have "int (length chords2) = len" by simp
    with False g a s c3 show ?thesis
      by (simp add: StyleEngine_generate_def Let_def)
  qed
qed

theorem generate_length_witness:
  "(1::int) \<le> 4 \<and> random_state_ok (constant_state (1/2)) \<and> (8::nat) \<le> 8 \<and>
   (\<exists>chords st'. StyleEngine_generate 8 BEBOP 4 0 (constant_state (1/2)) = Inr (chords, st')
      \<and> int (length chords) = 4)"
proof -
  have ok: "random_state_ok (constant_state (1/2))"
    by (simp add: random_state_ok_constant)
  from generate_length [of 4 "constant_state (1/2)" 8 BEBOP 0] ok show ?thesis by simp
qed

section \<open>Determinism\<close>

text \<open>
  Claim C1 does not hold of the code: the seed reaches only the generator of the
  grammar. Two runs of \<open>HarmonyGenerator::generate\<close> on the base grammar with depth
  limit 2 and key C, whose seeded generator delivers the same draws (0.7 each time: S to
  T D T, T to SD T, D to PREP D), return different progressions when the function-static
  generator of \<open>derive\<close>, which picks the terminal rule at the depth limit, delivers
  different draws: F maj7, C maj7, D min7, G 7, F maj7, C maj7 for the draw 0 and
  D min7, C maj7, F maj7, G 7, D min7, C maj7 for the draw 0.5.
\<close>

theorem seeded_generate_depends_on_static_rng:
  "grammar_rng ((constant_state (7/10))\<lparr>derive_rng := constant_draws 0\<rparr>)
     = grammar_rng ((constant_state (7/10))\<lparr>derive_rng := constant_draws (1/2)\<rparr>) \<and>
   map_option fst
     (HarmonyGenerator_generate 8
        (setMaxDepth \<lparr>grammar = createBaseGrammar, config = default_config\<rparr> 2)
        ((constant_state (7/10))\<lparr>derive_rng := constant_draws 0\<rparr>))
     = Some [ChordSymbol_of (PC 5) MAJ7, ChordSymbol_of (PC 0) MAJ7,
             ChordSymbol_of (PC 2) MIN7, ChordSymbol_of (PC 7) DOM7,
             ChordSymbol_of (PC 5) MAJ7, ChordSymbol_of (PC 0) MAJ7] \<and>
   map_option fst
     (HarmonyGenerator_generate 8
        (setMaxDepth \<lparr>grammar = createBaseGrammar, config = default_config\<rparr> 2)
        ((constant_state (7/10))\<lparr>derive_rng := constant_draws (1/2)\<rparr>))
     = Some [ChordSymbol_of (PC 2) MIN7, ChordSymbol_of (PC 0) MAJ7,
             ChordSymbol_of (PC 5) MAJ7, ChordSymbol_of (PC 7) DOM7,
             ChordSymbol_of (PC 2) MIN7, ChordSymbol_of (PC 0) MAJ7]"
proof (intro conjI)
  show "grammar_rng ((constant_state (7/10))\<lparr>derive_rng := constant_draws 0\<rparr>)
     = grammar_rng ((constant_state (7/10))\<lparr>derive_rng := constant_draws (1/2)\<rparr>)"
    by simp
qed code_simp+

text \<open>
  The same holds of \<open>StyleEngine::generate\<close>, which has no seed at all: with the Bebop
  style, length 4, key C and the same draws of every other source, the padding of
  \<open>adjustLength\<close> follows its own static generator, and the progression with it.
\<close>

lemma style_generate_depends_on_static_rng:
  "map_sum id fst (StyleEngine_generate 8 BEBOP 4 0 (constant_state 0)) =
     Inr [ChordSymbol_of (PC 0) MAJ7, ChordSymbol_of (PC 2) MIN7,
          ChordSymbol_of (PC 1) DOM7, ChordSymbol_of (PC 0) MAJ7] \<and>
   map_sum id fst (StyleEngine_generate 8 BEBOP 4 0
                     ((constant_state 0)\<lparr>adjust_rng := constant_draws (9/10)\<rparr>)) =
     Inr [ChordSymbol_of (PC 0) MAJ7, ChordSymbol_of (PC 0) MAJ7,
          ChordSymbol_of (PC 0) MAJ7, ChordSymbol_of (PC 0) MAJ7]"
  by (intro conjI) code_simp+

end
